theory Spec2Isabelle
  imports Complex_Main "HOL-Library.Sublist" "HOL-Library.Log_Nat"
begin

section \<open>Data model of the video compression bot\<close>

text \<open>
  The bot keeps three pieces of state: the module-level dictionary \<open>active_tasks\<close>
  (user id to task entry), the per-user dictionary \<open>context.user_data\<close> kept by the
  framework, and the files below \<open>TEMP_DOWNLOAD_DIR\<close>. A file system is a map from
  a path to the size of the file stored there.
\<close>

type_synonym user_id = int

record video_info =
  file_id :: string
  file_name :: string
  file_size :: int
  mime_type :: string

record task =
  task_video_info :: video_info
  quality :: string
  status_message_id :: int
  start_time :: real
  canceled :: bool

record user_data =
  default_quality :: "string option"
  pending_video :: "video_info option"
  is_premium :: "bool option"

record bot_state =
  active_tasks :: "user_id \<rightharpoonup> task"
  users :: "user_id \<Rightarrow> user_data"
  files :: "string \<rightharpoonup> int"

record preset =
  crf :: int
  preset_name :: string
  description :: string

definition MAX_FILE_SIZE :: int where
  "MAX_FILE_SIZE = 50 * 1024 * 1024"

definition PREMIUM_MAX_FILE_SIZE :: int where
  "PREMIUM_MAX_FILE_SIZE = 2 * 1024 * 1024 * 1024"

definition COMPRESSION_PRESETS :: "string \<rightharpoonup> preset" where
  "COMPRESSION_PRESETS =
     [''low'' \<mapsto> \<lparr>crf = 28, preset_name = ''veryfast'',
                  description = ''Small file size, lower quality''\<rparr>,
      ''medium'' \<mapsto> \<lparr>crf = 23, preset_name = ''medium'',
                  description = ''Balanced file size and quality''\<rparr>,
      ''high'' \<mapsto> \<lparr>crf = 18, preset_name = ''slow'',
                  description = ''Larger file size, higher quality''\<rparr>]"

text \<open>The empty user dictionary, as the framework creates it for a new user.\<close>

definition empty_user_data :: user_data where
  "empty_user_data = \<lparr>default_quality = None, pending_video = None, is_premium = None\<rparr>"

definition initial_state :: bot_state where
  "initial_state = \<lparr>active_tasks = Map.empty, users = (\<lambda>_. empty_user_data),
                     files = Map.empty\<rparr>"

section \<open>String helpers of the Python runtime\<close>

text \<open>\<open>str.capitalize\<close> on ASCII text: first character upper case, the rest lower case.\<close>

definition upper_char :: "char \<Rightarrow> char" where
  "upper_char c = (let n = (of_char c :: nat) in
                   if 97 \<le> n \<and> n \<le> 122 then char_of (n - 32) else c)"

definition lower_char :: "char \<Rightarrow> char" where
  "lower_char c = (let n = (of_char c :: nat) in
                   if 65 \<le> n \<and> n \<le> 90 then char_of (n + 32) else c)"

fun capitalize :: "string \<Rightarrow> string" where
  "capitalize [] = []"
| "capitalize (c # cs) = upper_char c # map lower_char cs"

text \<open>
  \<open>s.replace(pat, "")\<close> for a non-empty pattern: every non-overlapping occurrence,
  scanning from the left, is removed.
\<close>

function replace_empty :: "string \<Rightarrow> string \<Rightarrow> string" where
  "replace_empty pat [] = []"
| "replace_empty pat (c # cs) =
     (if pat \<noteq> [] \<and> take (length pat) (c # cs) = pat
      then replace_empty pat (drop (length pat) (c # cs))
      else c # replace_empty pat cs)"
  by pat_completeness auto
termination
  by (relation "measure (\<lambda>(pat, s). length s)") auto

text \<open>Decimal rendering of an integer inside an f-string.\<close>

fun str_nat :: "nat \<Rightarrow> string" where
  "str_nat n = (if n < 10 then [char_of (48 + n)]
                else str_nat (n div 10) @ [char_of (48 + n mod 10)])"

definition str_int :: "int \<Rightarrow> string" where
  "str_int i = (if i < 0 then CHR ''-'' # str_nat (nat (- i)) else str_nat (nat i))"

text \<open>\<open>os.path.join\<close> of two components on a POSIX system.\<close>

definition path_join :: "string \<Rightarrow> string \<Rightarrow> string" where
  "path_join a b =
     (if b \<noteq> [] \<and> hd b = CHR ''/'' then b
      else if a = [] \<or> last a = CHR ''/'' then a @ b
      else a @ ''/'' @ b)"

section \<open>Floating-point arithmetic of the Python runtime\<close>

text \<open>
  A Python float is an IEEE 754 binary64 number: 53 significant bits, exponents from
  -1022 to 1023, subnormal numbers below. Every operation returns the exact result rounded
  to the nearest float, a tie going to the even significand; a result that rounds to
  \<open>2 ^ 1024\<close> or more is an infinity. A finite float is modelled by the real number
  it denotes (the sign of a zero is not kept).
\<close>

datatype pyfloat = Finite real | PlusInf | MinusInf

text \<open>The binary exponent of a positive number: \<open>2 ^ e \<le> x < 2 ^ (e + 1)\<close>.\<close>

definition exponent :: "real \<Rightarrow> int" where
  "exponent x = (if 1 \<le> x then bitlen \<lfloor>x\<rfloor> - 1 else - bitlen (\<lceil>1 / x\<rceil> - 1))"

definition round_half_even :: "real \<Rightarrow> int" where
  "round_half_even y =
     (let f = \<lfloor>y\<rfloor>; d = y - of_int f
      in if d < 1 / 2 then f else if 1 / 2 < d then f + 1 else if even f then f else f + 1)"

text \<open>Rounding to a multiple of the unit in the last place of the binade of \<open>x\<close>.\<close>

definition round_float :: "real \<Rightarrow> real" where
  "round_float x =
     (if x = 0 then 0
      else (let u = 2 powi (max (exponent \<bar>x\<bar>) (- 1022) - 52)
            in sgn x * (of_int (round_half_even (\<bar>x\<bar> / u)) * u)))"

text \<open>The float an operation returns whose exact result is \<open>x\<close>.\<close>

definition float_result :: "real \<Rightarrow> pyfloat" where
  "float_result x =
     (let r = round_float x
      in if 2 ^ 1024 \<le> \<bar>r\<bar> then (if 0 < x then PlusInf else MinusInf) else Finite r)"

text \<open>\<open>c - y\<close> for a finite float \<open>c\<close>.\<close>

definition float_sub :: "real \<Rightarrow> pyfloat \<Rightarrow> pyfloat" where
  "float_sub c y =
     (case y of Finite v \<Rightarrow> float_result (c - v) | PlusInf \<Rightarrow> MinusInf | MinusInf \<Rightarrow> PlusInf)"

section \<open>Command and message handlers\<close>

text \<open>
  What a handler tells the user is a value of \<open>reply\<close>; the texts themselves are
  templates, and only the data they carry is kept.
\<close>

datatype reply =
    AlreadyActive
  | NoVideo
  | TooLarge int bool
  | QualityPrompt int string
  | NoPendingVideo
  | Starting string int
  | Canceling
  | NothingToCancel
  | SettingsMenu string
  | DefaultSet string

text \<open>\<open>context.user_data.get("default_quality", "medium")\<close>\<close>

definition get_default_quality :: "user_data \<Rightarrow> string" where
  "get_default_quality ud = (case default_quality ud of None \<Rightarrow> ''medium'' | Some q \<Rightarrow> q)"

definition settings_command :: "bot_state \<Rightarrow> user_id \<Rightarrow> bot_state \<times> reply" where
  "settings_command s uid =
     (let dq = get_default_quality (users s uid)
      in (s, SettingsMenu (capitalize dq)))"

definition handle_settings_callback :: "bot_state \<Rightarrow> user_id \<Rightarrow> string \<Rightarrow> bot_state \<times> reply" where
  "handle_settings_callback s uid data =
     (let q = replace_empty ''set_default_'' data;
          ud = (users s uid)\<lparr>default_quality := Some q\<rparr>
      in (s\<lparr>users := (users s)(uid := ud)\<rparr>, DefaultSet (capitalize q)))"

definition cancel_command :: "bot_state \<Rightarrow> user_id \<Rightarrow> bot_state \<times> reply" where
  "cancel_command s uid =
     (case active_tasks s uid of
        Some t \<Rightarrow> (s\<lparr>active_tasks := (active_tasks s)(uid \<mapsto> t\<lparr>canceled := True\<rparr>)\<rparr>, Canceling)
      | None \<Rightarrow> (s, NothingToCancel))"

text \<open>
  \<open>handle_video\<close>: the message carries a video (or a document) or nothing. The order of
  the checks is the source's: active task, presence of a video, size against the limit of
  the user's tier; only then the prompt is sent and the video reference is stored.
\<close>

definition handle_video :: "bot_state \<Rightarrow> user_id \<Rightarrow> video_info option \<Rightarrow> bot_state \<times> reply" where
  "handle_video s uid msg_video =
     (if active_tasks s uid \<noteq> None then (s, AlreadyActive)
      else case msg_video of
        None \<Rightarrow> (s, NoVideo)
      | Some video \<Rightarrow>
          (let fsize = file_size video;
               premium = (case is_premium (users s uid) of None \<Rightarrow> False | Some b \<Rightarrow> b);
               size_limit = (if premium then PREMIUM_MAX_FILE_SIZE else MAX_FILE_SIZE)
           in if fsize > size_limit then (s, TooLarge size_limit premium)
              else
                (let dq = get_default_quality (users s uid);
                     ud = (users s uid)\<lparr>pending_video := Some video\<rparr>
                 in (s\<lparr>users := (users s)(uid := ud)\<rparr>,
                     QualityPrompt fsize (capitalize dq)))))"

text \<open>
  \<open>handle_compression_callback\<close>: \<open>msg_id\<close> is the id of the edited status message and
  \<open>now\<close> the value of \<open>time.time()\<close>. The second component of the result tells whether
  a \<open>process_compression\<close> task was created for the user.
\<close>

definition handle_compression_callback ::
  "bot_state \<Rightarrow> user_id \<Rightarrow> string \<Rightarrow> int \<Rightarrow> real \<Rightarrow> bot_state \<times> bool \<times> reply" where
  "handle_compression_callback s uid data msg_id now =
     (let q = replace_empty ''compress_'' data
      in case pending_video (users s uid) of
           None \<Rightarrow> (s, False, NoPendingVideo)
         | Some vi \<Rightarrow>
             (s\<lparr>active_tasks := (active_tasks s)(uid \<mapsto>
                   \<lparr>task_video_info = vi, quality = q, status_message_id = msg_id,
                    start_time = now, canceled = False\<rparr>)\<rparr>,
              True, Starting (capitalize q) (file_size vi)))"

section \<open>The background pipeline\<close>

text \<open>
  \<open>process_compression\<close> is a coroutine: at every \<open>await\<close> it is suspended and other
  handlers (a cancel command, another quality selection, another pipeline) may change
  \<open>active_tasks\<close> before it resumes. The environment fixes what the outside world does
  in one run: the result of every external call and, for the await with index \<open>k\<close>, the
  change \<open>interleave env k\<close> made to the registry while the pipeline is suspended there.
  The awaits are numbered in source order:
  0 edit "Downloading", 1 \<open>get_file\<close>, 2 \<open>download_to_drive\<close>, 3 edit "canceled" after
  the download, 4 edit "Compressing", 5 the encoder run in the executor, 6 edit "canceled"
  after the encoder, 7 edit "Uploading", 8 \<open>send_video\<close>, 9 edit "completed",
  10 edit with the error text in the exception handler.
\<close>

datatype io_result = IoOk int | IoFail bool
  \<comment> \<open>success with the size of the file written, or failure, possibly leaving a partial file\<close>

record env =
  temp_download_dir :: string
  time_input :: int
  time_output :: int
  edit_ok :: "nat \<Rightarrow> bool"
  get_file_ok :: bool
  download_res :: io_result
  encode_res :: io_result
  send_video_ok :: bool
  interleave :: "nat \<Rightarrow> (user_id \<rightharpoonup> task) \<Rightarrow> (user_id \<rightharpoonup> task)"

datatype exn =
  KeyError | ZeroDivisionError | OverflowError | OSError | TelegramError | CompressionFailed

datatype event =
    EditMessage nat
  | GetFile string
  | Download string
  | Encode string string preset
  | SendVideo string pyfloat
  | Remove string
  | LogError

text \<open>How the body of the \<open>try\<close> statement is left.\<close>

datatype exit = Finished | Returned | Raised exn

text \<open>The state of one run: the shared state it touches, its trace and its local variables.\<close>

record pst =
  p_tasks :: "user_id \<rightharpoonup> task"
  p_files :: "string \<rightharpoonup> int"
  trace :: "event list"
  input_path :: "string option"
  output_path :: "string option"
  local_status_message_id :: "int option"

definition await :: "env \<Rightarrow> nat \<Rightarrow> pst \<Rightarrow> pst" where
  "await e k p = p\<lparr>p_tasks := interleave e k (p_tasks p)\<rparr>"

definition emit :: "event \<Rightarrow> pst \<Rightarrow> pst" where
  "emit ev p = p\<lparr>trace := trace p @ [ev]\<rparr>"

definition edit_message_text :: "env \<Rightarrow> nat \<Rightarrow> pst \<Rightarrow> exit \<times> pst" where
  "edit_message_text e k p =
     (let p' = await e k (emit (EditMessage k) p)
      in if edit_ok e k then (Finished, p') else (Raised TelegramError, p'))"

text \<open>An external call that writes a file: on success the file has the reported size, on
  failure a partial file may be left behind.\<close>

definition write_file :: "io_result \<Rightarrow> string \<Rightarrow> (string \<rightharpoonup> int) \<Rightarrow> (string \<rightharpoonup> int)" where
  "write_file r path fs =
     (case r of IoOk n \<Rightarrow> fs(path \<mapsto> n)
              | IoFail partial \<Rightarrow> if partial then fs(path \<mapsto> 0) else fs)"

definition io_ok :: "io_result \<Rightarrow> bool" where
  "io_ok r = (case r of IoOk _ \<Rightarrow> True | IoFail _ \<Rightarrow> False)"

text \<open>\<open>if os.path.exists(file_path): os.remove(file_path)\<close>\<close>

definition remove_if_exists :: "string \<Rightarrow> pst \<Rightarrow> pst" where
  "remove_if_exists path p =
     (if p_files p path \<noteq> None
      then emit (Remove path) (p\<lparr>p_files := (p_files p)(path := None)\<rparr>)
      else p)"

definition make_input_path :: "env \<Rightarrow> user_id \<Rightarrow> video_info \<Rightarrow> string" where
  "make_input_path e uid vi =
     path_join (temp_download_dir e)
       (''input_'' @ str_int uid @ ''_'' @ str_int (time_input e) @ ''_'' @ file_name vi)"

definition make_output_path :: "env \<Rightarrow> user_id \<Rightarrow> video_info \<Rightarrow> string" where
  "make_output_path e uid vi =
     path_join (temp_download_dir e)
       (''output_'' @ str_int uid @ ''_'' @ str_int (time_output e) @ ''_'' @ file_name vi)"

text \<open>
  \<open>a / b\<close> for two Python integers: the exact quotient correctly rounded, with
  \<open>ZeroDivisionError\<close> for a zero divisor and \<open>OverflowError\<close> for a quotient too large
  for a float.
\<close>

definition true_div :: "int \<Rightarrow> int \<Rightarrow> exn + real" where
  "true_div a b =
     (if b = 0 then Inl ZeroDivisionError
      else (case float_result (real_of_int a / real_of_int b) of
              Finite q \<Rightarrow> Inr q
            | _ \<Rightarrow> Inl OverflowError))"

text \<open>
  \<open>100 - (output_size / file_size * 100)\<close>: the true division of two Python integers,
  then a float multiplication and a float subtraction.
\<close>

definition size_reduction :: "int \<Rightarrow> int \<Rightarrow> exn + pyfloat" where
  "size_reduction output_size fsize =
     (case true_div output_size fsize of
        Inl x \<Rightarrow> Inl x
      | Inr q \<Rightarrow> Inr (float_sub 100 (float_result (q * 100))))"

text \<open>Lines 363 to 404: metrics, upload, final status message.\<close>

definition stage_upload :: "env \<Rightarrow> video_info \<Rightarrow> string \<Rightarrow> pst \<Rightarrow> exit \<times> pst" where
  "stage_upload e vi opath p =
     (case p_files p opath of
        None \<Rightarrow> (Raised OSError, p)
      | Some output_size \<Rightarrow>
          (case size_reduction output_size (file_size vi) of
             Inl x \<Rightarrow> (Raised x, p)
           | Inr red \<Rightarrow>
               (case edit_message_text e 7 p of
                  (Finished, p1) \<Rightarrow>
                    (let p2 = await e 8 (emit (SendVideo opath red) p1)
                     in if send_video_ok e then edit_message_text e 9 p2
                        else (Raised TelegramError, p2))
                | r \<Rightarrow> r)))"

text \<open>Lines 348 to 361: the cancellation check after the encoder has returned.\<close>

definition stage_after_encode ::
  "env \<Rightarrow> user_id \<Rightarrow> video_info \<Rightarrow> string \<Rightarrow> string \<Rightarrow> pst \<Rightarrow> exit \<times> pst" where
  "stage_after_encode e uid vi ipath opath p =
     (case p_tasks p uid of
        None \<Rightarrow> (Raised KeyError, p)
      | Some t \<Rightarrow>
          if canceled t then
            (case edit_message_text e 6 (remove_if_exists opath (remove_if_exists ipath p)) of
               (Finished, p1) \<Rightarrow>
                 (if p_tasks p1 uid = None then (Raised KeyError, p1)
                  else (Returned, p1\<lparr>p_tasks := (p_tasks p1)(uid := None)\<rparr>))
             | r \<Rightarrow> r)
          else stage_upload e vi opath p)"

text \<open>Lines 327 to 346: status message, preset lookup, the encoder call.\<close>

definition stage_encode ::
  "env \<Rightarrow> user_id \<Rightarrow> video_info \<Rightarrow> string \<Rightarrow> string \<Rightarrow> string \<Rightarrow> pst \<Rightarrow> exit \<times> pst" where
  "stage_encode e uid vi q ipath opath p =
     (case COMPRESSION_PRESETS q of
        None \<Rightarrow> (Raised KeyError, p)
      | Some pr \<Rightarrow>
          (case edit_message_text e 4 p of
             (Finished, p1) \<Rightarrow>
               (let p2 = await e 5 (emit (Encode ipath opath pr) p1
                            \<lparr>p_files := write_file (encode_res e) opath (p_files p1)\<rparr>)
                in if io_ok (encode_res e) then stage_after_encode e uid vi ipath opath p2
                   else (Raised CompressionFailed, p2))
           | r \<Rightarrow> r))"

text \<open>Lines 316 to 325: the cancellation check after the download.\<close>

definition stage_after_download ::
  "env \<Rightarrow> user_id \<Rightarrow> video_info \<Rightarrow> string \<Rightarrow> string \<Rightarrow> string \<Rightarrow> pst \<Rightarrow> exit \<times> pst" where
  "stage_after_download e uid vi q ipath opath p =
     (case p_tasks p uid of
        None \<Rightarrow> (Raised KeyError, p)
      | Some t \<Rightarrow>
          if canceled t then
            (if p_files p ipath = None then (Raised OSError, p)
             else
               (case edit_message_text e 3
                       (emit (Remove ipath) (p\<lparr>p_files := (p_files p)(ipath := None)\<rparr>)) of
                  (Finished, p1) \<Rightarrow>
                    (if p_tasks p1 uid = None then (Raised KeyError, p1)
                     else (Returned, p1\<lparr>p_tasks := (p_tasks p1)(uid := None)\<rparr>))
                | r \<Rightarrow> r))
          else stage_encode e uid vi q ipath opath p)"

text \<open>Lines 306 to 314: file lookup, the two paths, the download.\<close>

definition stage_download ::
  "env \<Rightarrow> user_id \<Rightarrow> video_info \<Rightarrow> string \<Rightarrow> pst \<Rightarrow> exit \<times> pst" where
  "stage_download e uid vi q p =
     (let p1 = await e 1 (emit (GetFile (file_id vi)) p)
      in if \<not> get_file_ok e then (Raised TelegramError, p1)
         else
           (let ipath = make_input_path e uid vi;
                opath = make_output_path e uid vi;
                p2 = p1\<lparr>input_path := Some ipath, output_path := Some opath\<rparr>;
                p3 = await e 2 (emit (Download ipath) p2
                        \<lparr>p_files := write_file (download_res e) ipath (p_files p2)\<rparr>)
            in if io_ok (download_res e) then stage_after_download e uid vi q ipath opath p3
               else (Raised TelegramError, p3)))"

text \<open>Lines 290 to 404: the body of the \<open>try\<close> statement.\<close>

definition try_body :: "env \<Rightarrow> user_id \<Rightarrow> pst \<Rightarrow> exit \<times> pst" where
  "try_body e uid p =
     (case p_tasks p uid of
        None \<Rightarrow> (Raised KeyError, p)
      | Some task_info \<Rightarrow>
          (let vi = task_video_info task_info;
               q = quality task_info;
               p0 = p\<lparr>local_status_message_id := Some (status_message_id task_info)\<rparr>
           in case edit_message_text e 0 p0 of
                (Finished, p1) \<Rightarrow> stage_download e uid vi q p1
              | r \<Rightarrow> r))"

text \<open>
  Lines 406 to 415: the exception is logged and the error text is sent, any failure of
  that being swallowed. When \<open>status_message_id\<close> was never bound, evaluating the
  arguments raises \<open>NameError\<close> before the call is made.
\<close>

definition except_handler :: "env \<Rightarrow> exit \<Rightarrow> pst \<Rightarrow> pst" where
  "except_handler e x p =
     (case x of
        Raised _ \<Rightarrow>
          (let p1 = emit LogError p
           in case local_status_message_id p1 of
                None \<Rightarrow> p1
              | Some _ \<Rightarrow> snd (edit_message_text e 10 p1))
      | _ \<Rightarrow> p)"

text \<open>
  Lines 417 to 428: building the list \<open>[input_path, output_path]\<close> raises \<open>NameError\<close>
  when a path was never bound, which is logged; then the registry entry is removed.
\<close>

definition finally_block :: "user_id \<Rightarrow> pst \<Rightarrow> pst" where
  "finally_block uid p =
     (let p1 = (case (input_path p, output_path p) of
                  (Some ipath, Some opath) \<Rightarrow> remove_if_exists opath (remove_if_exists ipath p)
                | _ \<Rightarrow> emit LogError p)
      in p1\<lparr>p_tasks := (p_tasks p1)(uid := None)\<rparr>)"

text \<open>
  The source keeps no status field. The terminal status of a run is read off the way the
  \<open>try\<close> body is left: it runs to its end (Completed), it returns from one of the two
  cancellation branches (Canceled), or an exception reaches the handler (Failed).
\<close>

datatype status = Completed | Canceled | Failed

definition status_of :: "exit \<Rightarrow> status" where
  "status_of x = (case x of Finished \<Rightarrow> Completed | Returned \<Rightarrow> Canceled | Raised _ \<Rightarrow> Failed)"

definition start_pst :: "bot_state \<Rightarrow> pst" where
  "start_pst s = \<lparr>p_tasks = active_tasks s, p_files = files s, trace = [],
                  input_path = None, output_path = None, local_status_message_id = None\<rparr>"

definition process_compression :: "env \<Rightarrow> user_id \<Rightarrow> bot_state \<Rightarrow> status \<times> pst" where
  "process_compression e uid s =
     (case try_body e uid (start_pst s) of
        (x, p) \<Rightarrow> (status_of x, finally_block uid (except_handler e x p)))"

text \<open>The shared state a run leaves behind.\<close>

definition final_state :: "bot_state \<Rightarrow> status \<times> pst \<Rightarrow> bot_state" where
  "final_state s r = s\<lparr>active_tasks := p_tasks (snd r), files := p_files (snd r)\<rparr>"

section \<open>Sample data\<close>

text \<open>Concrete inputs on which the theorems below are instantiated.\<close>

definition sample_video :: "int \<Rightarrow> video_info" where
  "sample_video n = \<lparr>file_id = ''f1'', file_name = ''a.mp4'', file_size = n,
                      mime_type = ''video/mp4''\<rparr>"

section \<open>Operations on the shared state\<close>

text \<open>
  Everything a user can cause: a command, a button press, a video message, or a run of
  the background pipeline started for the user. \<open>apply_op\<close> gives the shared state
  an operation leaves behind.
\<close>

datatype operation =
    SettingsCommand
  | SettingsCallback string
  | CancelCommand
  | VideoMessage "video_info option"
  | CompressionCallback string int real
  | RunPipeline env

fun apply_op :: "operation \<Rightarrow> user_id \<Rightarrow> bot_state \<Rightarrow> bot_state" where
  "apply_op SettingsCommand u s = fst (settings_command s u)"
| "apply_op (SettingsCallback d) u s = fst (handle_settings_callback s u d)"
| "apply_op CancelCommand u s = fst (cancel_command s u)"
| "apply_op (VideoMessage v) u s = fst (handle_video s u v)"
| "apply_op (CompressionCallback d m t) u s = fst (handle_compression_callback s u d m t)"
| "apply_op (RunPipeline e) u s = final_state s (process_compression e u s)"

text \<open>
  States reached by user 7 from the initial state: after a first video, after a second
  video, after a quality selection on the first prompt, and after a selection with a
  preset key the table does not hold.
\<close>

definition state_video_a :: bot_state where
  "state_video_a = fst (handle_video initial_state 7 (Some (sample_video 1000)))"

definition state_video_b :: bot_state where
  "state_video_b = fst (handle_video state_video_a 7 (Some (sample_video 2000)))"

definition state_first_job :: bot_state where
  "state_first_job = fst (handle_compression_callback state_video_b 7 ''compress_low'' 100 0)"


section \<open>Paths and sample environments of the pipeline\<close>

text \<open>The two scratch paths a run started from a state uses for a user.\<close>

definition job_paths :: "env \<Rightarrow> user_id \<Rightarrow> bot_state \<Rightarrow> string set" where
  "job_paths e uid s =
     (case active_tasks s uid of
        None \<Rightarrow> {}
      | Some t \<Rightarrow> {make_input_path e uid (task_video_info t),
                   make_output_path e uid (task_video_info t)})"

text \<open>What the stages after the allocation of the paths keep true.\<close>

definition paths_inv :: "string \<Rightarrow> string \<Rightarrow> (string \<rightharpoonup> int) \<Rightarrow> pst \<Rightarrow> bool" where
  "paths_inv ip op fs0 p \<longleftrightarrow>
     input_path p = Some ip \<and> output_path p = Some op \<and>
     (\<forall>q. q \<noteq> ip \<and> q \<noteq> op \<longrightarrow> p_files p q = fs0 q)"

text \<open>The body either fails before the paths are bound, leaving the files alone, or
  binds both and touches no other path.\<close>

definition body_post :: "env \<Rightarrow> user_id \<Rightarrow> bot_state \<Rightarrow> pst \<Rightarrow> bool" where
  "body_post e uid s p \<longleftrightarrow>
     (input_path p = None \<and> output_path p = None \<and> p_files p = files s) \<or>
     (\<exists>t. active_tasks s uid = Some t \<and>
          paths_inv (make_input_path e uid (task_video_info t))
                    (make_output_path e uid (task_video_info t)) (files s) p)"

text \<open>
  Sample environments: every external call succeeds and nothing else touches the
  registry; the same with a failing encoder that leaves a partial output file.
\<close>

definition env_ok :: env where
  "env_ok = \<lparr>temp_download_dir = ''/tmp/tg_video_compressor'', time_input = 1700000000,
             time_output = 1700000000, edit_ok = (\<lambda>_. True), get_file_ok = True,
             download_res = IoOk 2000, encode_res = IoOk 900, send_video_ok = True,
             interleave = (\<lambda>_ m. m)\<rparr>"

definition env_encode_fails :: env where
  "env_encode_fails = env_ok\<lparr>encode_res := IoFail True\<rparr>"

text \<open>
  The registry as the run finds it after the awaits with the given indices, in order.
\<close>

definition tasks_after :: "env \<Rightarrow> nat list \<Rightarrow> (user_id \<rightharpoonup> task) \<Rightarrow> (user_id \<rightharpoonup> task)" where
  "tasks_after e ks m = foldl (\<lambda>m k. interleave e k m) m ks"

text \<open>User 7 after a cancel command issued right after the job was registered.\<close>

definition state_canceled_early :: bot_state where
  "state_canceled_early = fst (cancel_command state_first_job 7)"

text \<open>What \<open>cancel_command\<close> does to the registry.\<close>

definition request_cancel :: "user_id \<Rightarrow> (user_id \<rightharpoonup> task) \<Rightarrow> (user_id \<rightharpoonup> task)" where
  "request_cancel uid m = (case m uid of None \<Rightarrow> m | Some t \<Rightarrow> m(uid \<mapsto> t\<lparr>canceled := True\<rparr>))"

text \<open>As \<open>env_ok\<close>, with a cancel command of user 7 arriving while the encoder runs.\<close>

definition env_cancel_during_encode :: env where
  "env_cancel_during_encode =
     env_ok\<lparr>interleave := (\<lambda>k m. if k = 5 then request_cancel 7 m else m)\<rparr>"



text \<open>A notice that was attempted in the body and could not be delivered ends the body
  with the exception of the messaging library.\<close>

definition notice_failure_raises :: "env \<Rightarrow> pst \<Rightarrow> exit \<times> pst \<Rightarrow> bool" where
  "notice_failure_raises e p r \<longleftrightarrow>
     (\<forall>k. EditMessage k \<in> set (trace (snd r)) \<and> \<not> edit_ok e k \<longrightarrow>
          EditMessage k \<in> set (trace p) \<or> fst r = Raised TelegramError)"

text \<open>As \<open>env_cancel_during_encode\<close>, with the cancel notice after the encoder (await 6)
  failing to be delivered.\<close>

definition env_cancel_notice_fails :: env where
  "env_cancel_notice_fails = env_cancel_during_encode\<lparr>edit_ok := (\<lambda>k. k \<noteq> 6)\<rparr>"

text \<open>The value of \<open>100 - (output_size / file_size * 100)\<close> when no operation overflows.\<close>

definition reduction_value :: "int \<Rightarrow> int \<Rightarrow> real" where
  "reduction_value output_size fsize =
     round_float (100 - round_float (round_float (real_of_int output_size / real_of_int fsize) * 100))"

text \<open>As \<open>env_ok\<close>, with an encoder whose output is larger than the video it was given.\<close>

definition env_output_larger :: env where
  "env_output_larger = env_ok\<lparr>encode_res := IoOk 3000\<rparr>"

section \<open>Size gate and default quality\<close>

lemma capitalize_medium: "capitalize ''medium'' = ''Medium''"
  by code_simp

text \<open>
  C7. A video whose declared size is above the limit of the user's tier (50MB for a
  regular user, 2GB for a premium user) is answered with the too-large reply and the
  whole state (task registry, user data, files) is left as it was; a video whose size is
  at most the limit passes the check: the quality prompt is sent and only the user's
  pending video is stored, the registry and the files being unchanged.
\<close>

theorem size_gate:
  assumes "active_tasks s uid = None"
  shows "handle_video s uid (Some v) =
           (let premium = (is_premium (users s uid) = Some True);
                limit = (if premium then 2147483648 else 52428800)
            in if file_size v > limit then (s, TooLarge limit premium)
               else (s\<lparr>users := (users s)(uid := (users s uid)\<lparr>pending_video := Some v\<rparr>)\<rparr>,
                     QualityPrompt (file_size v) (capitalize (get_default_quality (users s uid)))))"
  using assms
  by (cases "is_premium (users s uid)")
     (auto simp: handle_video_def Let_def MAX_FILE_SIZE_def PREMIUM_MAX_FILE_SIZE_def)

theorem size_gate_witness:
  "active_tasks initial_state 7 = None \<and>
   handle_video initial_state 7 (Some (sample_video 62914560)) = (initial_state, TooLarge 52428800 False) \<and>
   snd (handle_video initial_state 7 (Some (sample_video 52428800))) = QualityPrompt 52428800 ''Medium''"
proof -
  have h: "active_tasks initial_state 7 = None" by (simp add: initial_state_def)
  show ?thesis
    using h size_gate [OF h, of "sample_video 62914560"] size_gate [OF h, of "sample_video 52428800"]
      capitalize_medium
    by (simp add: sample_video_def initial_state_def empty_user_data_def get_default_quality_def)
qed

text \<open>
  C10. For a user whose data holds no default quality, both operations that read it use
  "medium": the settings menu shows it (capitalised by the template), and the prompt sent
  by \<open>handle_video\<close> for an accepted video shows it; the other replies of
  \<open>handle_video\<close> do not read the default.
\<close>

theorem default_quality_fallback:
  assumes "default_quality (users s uid) = None"
  shows "snd (settings_command s uid) = SettingsMenu ''Medium'' \<and>
         snd (handle_video s uid (Some v)) =
           (let premium = (is_premium (users s uid) = Some True);
                limit = (if premium then PREMIUM_MAX_FILE_SIZE else MAX_FILE_SIZE)
            in if active_tasks s uid \<noteq> None then AlreadyActive
               else if file_size v > limit then TooLarge limit premium
               else QualityPrompt (file_size v) ''Medium'')"
  using assms capitalize_medium
  by (cases "is_premium (users s uid)")
     (auto simp: settings_command_def handle_video_def get_default_quality_def Let_def)

theorem default_quality_fallback_witness:
  "default_quality (users initial_state 7) = None \<and>
   snd (settings_command initial_state 7) = SettingsMenu ''Medium'' \<and>
   snd (handle_video initial_state 7 (Some (sample_video 1000))) = QualityPrompt 1000 ''Medium''"
proof -
  have h: "default_quality (users initial_state 7) = None"
    by (simp add: initial_state_def empty_user_data_def)
  show ?thesis
    using h default_quality_fallback [OF h, of "sample_video 1000"]
    by (simp add: sample_video_def initial_state_def empty_user_data_def MAX_FILE_SIZE_def)
qed

section \<open>Rounding\<close>

lemma exponent_bounds:
  assumes "0 < x"
  shows "2 powi exponent x \<le> x" and "x < 2 powi (exponent x + 1)"
proof -
  show "2 powi exponent x \<le> x"
  proof (cases "1 \<le> x")
    case True
    then have p: "0 < \<lfloor>x\<rfloor>" by linarith
    have b: "1 \<le> bitlen \<lfloor>x\<rfloor>"
      using p bitlen_eq_zero_iff [of "\<lfloor>x\<rfloor>"] bitlen_nonneg [of "\<lfloor>x\<rfloor>"] by linarith
    have "(2::int) ^ nat (bitlen \<lfloor>x\<rfloor> - 1) \<le> \<lfloor>x\<rfloor>" using bitlen_bounds [OF p] by simp
    then have "real_of_int (2 ^ nat (bitlen \<lfloor>x\<rfloor> - 1)) \<le> x" by (simp only: le_floor_iff)
    then have "(2::real) ^ nat (bitlen \<lfloor>x\<rfloor> - 1) \<le> x" by simp
    then show ?thesis using True b by (simp add: exponent_def power_int_def)
  next
    case False
    then have x1: "1 < 1 / x" using assms by simp
    let ?c = "\<lceil>1 / x\<rceil> - 1"
    have p: "0 < ?c" using x1 by linarith
    have "?c < 2 ^ nat (bitlen ?c)" using bitlen_bounds [OF p] by simp
    then have "\<lceil>1 / x\<rceil> \<le> 2 ^ nat (bitlen ?c)" by linarith
    then have "1 / x \<le> real_of_int (2 ^ nat (bitlen ?c))" by (simp only: ceiling_le_iff)
    then have "1 / x \<le> 2 ^ nat (bitlen ?c)" by simp
    then have "1 \<le> 2 ^ nat (bitlen ?c) * x" using assms by (simp add: field_simps)
    then have "(1 / 2) ^ nat (bitlen ?c) \<le> x" by (simp add: field_simps power_one_over)
    moreover have "1 \<le> bitlen ?c"
      using p bitlen_eq_zero_iff [of ?c] bitlen_nonneg [of ?c] by linarith
    ultimately show ?thesis using False
      by (simp add: exponent_def power_int_def)
  qed
  show "x < 2 powi (exponent x + 1)"
  proof (cases "1 \<le> x")
    case True
    then have p: "0 < \<lfloor>x\<rfloor>" by linarith
    have b: "1 \<le> bitlen \<lfloor>x\<rfloor>"
      using p bitlen_eq_zero_iff [of "\<lfloor>x\<rfloor>"] bitlen_nonneg [of "\<lfloor>x\<rfloor>"] by linarith
    have "\<lfloor>x\<rfloor> < 2 ^ nat (bitlen \<lfloor>x\<rfloor>)" using bitlen_bounds [OF p] by simp
    then have "x < real_of_int (2 ^ nat (bitlen \<lfloor>x\<rfloor>))" by (simp only: floor_less_iff)
    then have "x < 2 ^ nat (bitlen \<lfloor>x\<rfloor>)" by simp
    then show ?thesis using True b by (simp add: exponent_def power_int_def)
  next
    case False
    then have x1: "1 < 1 / x" using assms by simp
    let ?c = "\<lceil>1 / x\<rceil> - 1"
    have p: "0 < ?c" using x1 by linarith
    have b: "1 \<le> bitlen ?c" using p bitlen_eq_zero_iff [of ?c] bitlen_nonneg [of ?c] by linarith
    have "2 ^ nat (bitlen ?c - 1) \<le> ?c" using bitlen_bounds [OF p] by simp
    then have "2 ^ nat (bitlen ?c - 1) < \<lceil>1 / x\<rceil>" by linarith
    then have "real_of_int (2 ^ nat (bitlen ?c - 1)) < 1 / x" by (simp only: less_ceiling_iff)
    then have "2 ^ nat (bitlen ?c - 1) < 1 / x" by simp
    then have "2 ^ nat (bitlen ?c - 1) * x < 1" using assms by (simp add: field_simps)
    then have "x < (1 / 2) ^ nat (bitlen ?c - 1)" by (simp add: field_simps power_one_over)
    then show ?thesis using False b
      by (auto simp: exponent_def power_int_def nat_diff_distrib)
  qed
qed

lemma powi2_less_imp: "(2::real) powi m < 2 powi n \<Longrightarrow> m < n"
  using power_int_increasing [of n m "2::real"] by (cases "m < n") simp_all

lemma powi2_le_imp: "(2::real) powi m \<le> 2 powi n \<Longrightarrow> m \<le> n"
  using power_int_strict_increasing [of n m "2::real"] by (cases "m \<le> n") simp_all

lemma round_half_even_ge: "of_int n \<le> y \<Longrightarrow> n \<le> round_half_even y"
proof -
  assume "of_int n \<le> y"
  then have "n \<le> \<lfloor>y\<rfloor>" by (simp add: le_floor_iff)
  then show ?thesis by (simp add: round_half_even_def Let_def)
qed

lemma round_half_even_le: "y \<le> of_int n \<Longrightarrow> round_half_even y \<le> n"
proof (cases "y = of_int n")
  case True
  then show ?thesis by (simp add: round_half_even_def Let_def)
next
  case False
  assume "y \<le> of_int n"
  with False have "y < of_int n" by simp
  then have "\<lfloor>y\<rfloor> < n" by (simp add: floor_less_iff)
  then show ?thesis by (simp add: round_half_even_def Let_def)
qed

lemma round_float_minus: "round_float (- x) = - round_float x"
  by (simp add: round_float_def Let_def sgn_minus)

lemma round_float_pos:
  assumes "0 < x"
  shows "round_float x =
     of_int (round_half_even (x / 2 powi (max (exponent x) (- 1022) - 52))) *
       2 powi (max (exponent x) (- 1022) - 52)"
  using assms by (simp add: round_float_def Let_def)

lemma round_float_nonneg: "0 \<le> x \<Longrightarrow> 0 \<le> round_float x"
proof (cases "x = 0")
  case True
  then show ?thesis by (simp add: round_float_def)
next
  case False
  assume "0 \<le> x"
  with False have p: "0 < x" by simp
  let ?u = "(2::real) powi (max (exponent x) (- 1022) - 52)"
  have u: "0 < ?u" by simp
  have "real_of_int 0 \<le> x / ?u" using p u by simp
  then have "0 \<le> round_half_even (x / ?u)" by (rule round_half_even_ge)
  then show ?thesis using u by (simp add: round_float_pos [OF p])
qed

text \<open>A float below the exact result stays below the rounded one.\<close>

lemma round_float_ge:
  assumes "a \<le> x" and "- 1022 \<le> ea" and "2 powi ea \<le> a" and "a < 2 powi (ea + 1)"
    and "a = of_int k * 2 powi (ea - 52)"
  shows "a \<le> round_float x"
proof -
  have a0: "0 < a" using assms(3) zero_less_power_int [of "2::real" ea] by linarith
  then have p: "0 < x" using assms(1) by simp
  let ?e = "exponent x"
  have "(2::real) powi ea < 2 powi (?e + 1)"
    using assms(1,3) exponent_bounds(2) [OF p] by linarith
  then have le: "ea \<le> ?e" using powi2_less_imp [of ea "?e + 1"] by simp
  then have m: "max ?e (- 1022) = ?e" using assms(2) by simp
  let ?u = "(2::real) powi (?e - 52)"
  have u: "0 < ?u" by simp
  have r: "round_float x = of_int (round_half_even (x / ?u)) * ?u"
    by (simp add: round_float_pos [OF p] m)
  show ?thesis
  proof (cases "ea = ?e")
    case True
    have "of_int k \<le> x / ?u" using assms(1,5) u True by (simp add: field_simps)
    then have "k \<le> round_half_even (x / ?u)" by (rule round_half_even_ge)
    then have "of_int k * ?u \<le> of_int (round_half_even (x / ?u)) * ?u" using u by simp
    then show ?thesis using r assms(5) True by simp
  next
    case False
    with le have lt: "ea + 1 \<le> ?e" by simp
    have "(2::real) powi (52 + (?e - 52)) = 2 powi 52 * ?u"
      by (rule power_int_add) simp
    then have s: "real_of_int (2 ^ 52) * ?u = 2 powi ?e" by simp
    then have "real_of_int (2 ^ 52) \<le> x / ?u"
      using exponent_bounds(1) [OF p] u by (simp add: field_simps)
    then have "2 ^ 52 \<le> round_half_even (x / ?u)" by (rule round_half_even_ge)
    then have "real_of_int (2 ^ 52) \<le> real_of_int (round_half_even (x / ?u))"
      by (simp only: of_int_le_iff)
    then have "real_of_int (2 ^ 52) * ?u \<le> of_int (round_half_even (x / ?u)) * ?u"
      using u by (simp only: mult_le_cancel_right_pos)
    moreover note s
    moreover have "(2::real) powi (ea + 1) \<le> 2 powi ?e"
      using lt by (simp add: power_int_increasing)
    ultimately show ?thesis using r assms(4) by linarith
  qed
qed

text \<open>A power of two above the exact result stays above the rounded one.\<close>

lemma round_float_le_pow:
  assumes "0 < x" and "x \<le> 2 powi k" and "- 1022 \<le> k"
  shows "round_float x \<le> 2 powi k"
proof -
  let ?e = "max (exponent x) (- 1022)"
  have "(2::real) powi exponent x \<le> 2 powi k"
    using assms(2) exponent_bounds(1) [OF assms(1)] by linarith
  then have "exponent x \<le> k" by (rule powi2_le_imp)
  then have le: "?e \<le> k" using assms(3) by simp
  let ?u = "(2::real) powi (?e - 52)"
  have u: "0 < ?u" by simp
  have n: "(2::real) powi k = real_of_int (2 ^ nat (k - ?e + 52)) * ?u"
  proof -
    have "real_of_int (2 ^ nat (k - ?e + 52)) = 2 powi (k - ?e + 52)"
      using le by (simp add: power_int_def)
    then show ?thesis by (simp add: power_int_add [symmetric])
  qed
  have "x / ?u \<le> real_of_int (2 ^ nat (k - ?e + 52))"
    using assms(2) u n by (simp add: field_simps)
  then have "round_half_even (x / ?u) \<le> 2 ^ nat (k - ?e + 52)" by (rule round_half_even_le)
  then have "of_int (round_half_even (x / ?u)) * ?u \<le> real_of_int (2 ^ nat (k - ?e + 52)) * ?u"
    using u by (simp del: of_int_power)
  then show ?thesis using n by (simp add: round_float_pos [OF assms(1)] del: of_int_power)
qed

lemma round_float_abs: "\<bar>round_float x\<bar> = round_float \<bar>x\<bar>"
proof (cases "0 \<le> x")
  case True
  then show ?thesis using round_float_nonneg [of x] by simp
next
  case False
  then have "0 \<le> round_float (- x)" using round_float_nonneg [of "- x"] by simp
  then show ?thesis using False by (simp add: round_float_minus)
qed

lemma round_float_abs_le_pow:
  assumes "\<bar>x\<bar> \<le> 2 powi k" and "- 1022 \<le> k"
  shows "\<bar>round_float x\<bar> \<le> 2 powi k"
proof (cases "x = 0")
  case True
  then show ?thesis by (simp add: round_float_def)
next
  case False
  then have "0 < \<bar>x\<bar>" by simp
  then show ?thesis using assms round_float_le_pow [of "\<bar>x\<bar>" k] by (simp add: round_float_abs)
qed

lemma float_result_finite:
  assumes "\<bar>x\<bar> \<le> 2 powi k" and "- 1022 \<le> k" and "k < 1024"
  shows "float_result x = Finite (round_float x)"
proof -
  have "\<bar>round_float x\<bar> \<le> 2 powi k" using assms(1,2) by (rule round_float_abs_le_pow)
  moreover have "(2::real) powi k < 2 powi 1024"
    using assms(3) by (intro power_int_strict_increasing) simp_all
  moreover have "(2::real) powi 1024 = 2 ^ 1024" by (simp add: power_int_def)
  ultimately have "\<bar>round_float x\<bar> < 2 ^ 1024" by linarith
  then show ?thesis by (simp add: float_result_def Let_def)
qed

text \<open>Sizes as a file system reports them, below \<open>2 ^ 63\<close>, never overflow.\<close>

lemma size_reduction_value:
  assumes "0 < fsize" and "0 \<le> m" and "m < 2 ^ 63"
  shows "size_reduction m fsize = Inr (Finite (reduction_value m fsize))"
proof -
  let ?x = "real_of_int m / real_of_int fsize"
  let ?q = "round_float ?x"
  let ?y = "round_float (?q * 100)"
  have f: "1 \<le> real_of_int fsize" using assms(1) by simp
  have x0: "0 \<le> ?x" using assms(1,2) by simp
  have "1 * real_of_int m \<le> real_of_int fsize * real_of_int m"
    using f assms(2) by (intro mult_right_mono) simp_all
  then have "?x \<le> real_of_int m" using assms(1) by (simp add: field_simps)
  also have "\<dots> \<le> 2 ^ 63" using assms(3) by (simp flip: of_int_le_iff)
  also have "\<dots> = (2::real) powi 63" by (simp add: power_int_def)
  finally have x: "\<bar>?x\<bar> \<le> 2 powi 63" using x0 by simp
  have q: "float_result ?x = Finite ?q" using x by (rule float_result_finite) simp_all
  have q0: "0 \<le> ?q" using x0 by (rule round_float_nonneg)
  have q1: "?q \<le> 2 powi 63" using round_float_abs_le_pow [OF x] q0 by simp
  have "?q * 100 \<le> 2 powi 63 * 2 powi 7" using q1 q0 by (intro mult_mono) simp_all
  also have "\<dots> = (2::real) powi 70" by (simp add: power_int_def)
  finally have y: "\<bar>?q * 100\<bar> \<le> 2 powi 70" using q0 by simp
  have yf: "float_result (?q * 100) = Finite ?y" using y by (rule float_result_finite) simp_all
  have y0: "0 \<le> ?y" using q0 by (intro round_float_nonneg) simp
  have y1: "?y \<le> 2 powi 70" using round_float_abs_le_pow [OF y] y0 by simp
  have "(100::real) \<le> 2 powi 70" by (simp add: power_int_def)
  then have r: "\<bar>100 - ?y\<bar> \<le> 2 powi 70" using y0 y1 by simp
  have rf: "float_result (100 - ?y) = Finite (round_float (100 - ?y))"
    using r by (rule float_result_finite) simp_all
  show ?thesis
    using assms(1) q yf rf
    by (simp add: size_reduction_def true_div_def float_sub_def reduction_value_def)
qed

text \<open>An output larger than an input of at most \<open>2 ^ 52\<close> bytes gives a negative float.\<close>

lemma reduction_value_negative:
  assumes "0 < fsize" and "fsize \<le> 2 ^ 52" and "fsize < m"
  shows "reduction_value m fsize < 0"
proof -
  let ?x = "real_of_int m / real_of_int fsize"
  let ?q = "round_float ?x"
  let ?y = "round_float (?q * 100)"
  have f: "0 < real_of_int fsize" using assms(1) by simp
  have f2: "real_of_int fsize \<le> 2 ^ 52" using assms(2) by (simp flip: of_int_le_iff)
  have "real_of_int fsize + 1 \<le> real_of_int m" using assms(3) by linarith
  then have "(real_of_int fsize + 1) / real_of_int fsize \<le> ?x"
    using f by (intro divide_right_mono) simp_all
  moreover have "(real_of_int fsize + 1) / real_of_int fsize = 1 + 1 / real_of_int fsize"
    using f by (simp add: field_simps)
  ultimately have "1 + 1 / real_of_int fsize \<le> ?x" by simp
  moreover have "1 / 2 ^ 52 \<le> 1 / real_of_int fsize" using f f2 by (simp add: frac_le)
  ultimately have x: "1 + 1 / 2 ^ 52 \<le> ?x" by linarith
  have q: "1 + 1 / 2 ^ 52 \<le> ?q"
    by (rule round_float_ge [OF x, of 0 "2 ^ 52 + 1"]) (simp_all add: power_int_def power_one_over)
  have "100 + 1 / 2 ^ 46 \<le> (1 + 1 / 2 ^ 52) * (100::real)" by simp
  also have "\<dots> \<le> ?q * 100" using q by simp
  finally have y': "100 + 1 / 2 ^ 46 \<le> ?q * 100" .
  have y: "100 + 1 / 2 ^ 46 \<le> ?y"
    by (rule round_float_ge [OF y', of 6 "100 * 2 ^ 46 + 1"]) (simp_all add: power_int_def power_one_over)
  then have d: "1 / 2 ^ 46 \<le> ?y - 100" by simp
  have "1 / 2 ^ 46 \<le> round_float (?y - 100)"
    by (rule round_float_ge [OF d, of "- 46" "2 ^ 52"]) (simp_all add: power_int_def power_one_over)
  then have "0 < round_float (?y - 100)" by (simp add: field_simps)
  moreover have "round_float (100 - ?y) = - round_float (?y - 100)"
    using round_float_minus [of "?y - 100"] by simp
  ultimately show ?thesis by (simp add: reduction_value_def)
qed

section \<open>Admission and the pending video\<close>

lemma replace_low: "replace_empty ''compress_'' ''compress_low'' = ''low''" by simp
lemma replace_high: "replace_empty ''compress_'' ''compress_high'' = ''high''" by simp

lemma state_video_b_eq:
  "state_video_b = initial_state\<lparr>users := (users initial_state)
      (7 := empty_user_data\<lparr>pending_video := Some (sample_video 2000)\<rparr>)\<rparr>"
  by (simp add: state_video_b_def state_video_a_def handle_video_def initial_state_def Let_def
      empty_user_data_def sample_video_def MAX_FILE_SIZE_def)

lemma state_first_job_tasks:
  "active_tasks state_first_job 7 =
     Some \<lparr>task_video_info = sample_video 2000, quality = ''low'', status_message_id = 100,
           start_time = 0, canceled = False\<rparr>"
  by (simp add: state_first_job_def state_video_b_eq handle_compression_callback_def replace_low
       initial_state_def)

lemma capitalize_high: "capitalize ''high'' = ''High''" by code_simp

text \<open>
  C1. Single-flight admission fails for a quality selection: user 7 sends two videos,
  selects a quality on the first prompt (a job with preset "low" is registered), and
  selects a quality on the second prompt while that job is active. The second selection
  is not rejected: it is answered with the starting message, a pipeline is started, and
  the registry entry of the first job is replaced (preset, status message, start time).
  A cancellation requested for the first job in between is lost with it.
\<close>

theorem second_selection_replaces_active_job:
  "active_tasks state_first_job 7 =
     Some \<lparr>task_video_info = sample_video 2000, quality = ''low'', status_message_id = 100,
           start_time = 0, canceled = False\<rparr> \<and>
   snd (handle_compression_callback state_first_job 7 ''compress_high'' 101 1) =
     (True, Starting ''High'' 2000) \<and>
   active_tasks (fst (handle_compression_callback state_first_job 7 ''compress_high'' 101 1)) 7 =
     Some \<lparr>task_video_info = sample_video 2000, quality = ''high'', status_message_id = 101,
           start_time = 1, canceled = False\<rparr> \<and>
   map_option canceled (active_tasks (fst (cancel_command state_first_job 7)) 7) = Some True \<and>
   map_option canceled (active_tasks (fst (handle_compression_callback
       (fst (cancel_command state_first_job 7)) 7 ''compress_high'' 101 1)) 7) = Some False"
proof -
  have pv: "pending_video (users state_first_job 7) = Some (sample_video 2000)"
    by (simp add: state_first_job_def state_video_b_eq handle_compression_callback_def
        initial_state_def)
  have fs: "file_size (sample_video 2000) = 2000" by (simp add: sample_video_def)
  show ?thesis
    using state_first_job_tasks pv fs
    by (simp add: handle_compression_callback_def replace_high capitalize_high cancel_command_def
        del: capitalize.simps)
qed

lemma final_state_users: "users (final_state s r) = users s"
  by (simp add: final_state_def)

text \<open>
  C9. No operation clears the stored pending video: whatever operation any user performs,
  a stored reference stays stored, and every operation other than a new video message
  leaves it unchanged. In particular a job started from it leaves it in place, and a
  second quality selection registers a job for the same video reference.
\<close>

theorem pending_video_never_cleared:
  assumes "pending_video (users s uid) = Some vi"
  shows "pending_video (users (apply_op op u s) uid) \<noteq> None \<and>
         ((\<forall>x. op \<noteq> VideoMessage x) \<longrightarrow> pending_video (users (apply_op op u s) uid) = Some vi) \<and>
         pending_video (users (fst (handle_compression_callback s uid d m t)) uid) = Some vi \<and>
         map_option task_video_info
           (active_tasks (fst (handle_compression_callback
              (fst (handle_compression_callback s uid d m t)) uid d' m' t')) uid) = Some vi"
proof -
  have a: "pending_video (users (apply_op op u s) uid) \<noteq> None"
    using assms
    by (cases op)
       (auto simp: settings_command_def handle_settings_callback_def cancel_command_def
          handle_video_def handle_compression_callback_def final_state_users Let_def
          split: option.splits if_splits)
  have b: "pending_video (users (apply_op op u s) uid) = Some vi" if "\<forall>x. op \<noteq> VideoMessage x"
    using assms that
    by (cases op)
       (auto simp: settings_command_def handle_settings_callback_def cancel_command_def
          handle_compression_callback_def final_state_users Let_def
          split: option.splits if_splits)
  have c: "handle_compression_callback s uid d m t =
     (s\<lparr>active_tasks := (active_tasks s)(uid \<mapsto>
           \<lparr>task_video_info = vi, quality = replace_empty ''compress_'' d, status_message_id = m,
            start_time = t, canceled = False\<rparr>)\<rparr>,
      True, Starting (capitalize (replace_empty ''compress_'' d)) (file_size vi))"
    using assms by (simp add: handle_compression_callback_def Let_def)
  show ?thesis using a b c assms
    by (simp add: handle_compression_callback_def Let_def)
qed

theorem pending_video_never_cleared_witness:
  "pending_video (users state_first_job 7) = Some (sample_video 2000) \<and>
   pending_video (users (apply_op CancelCommand 7 state_first_job) 7) = Some (sample_video 2000) \<and>
   map_option task_video_info
     (active_tasks (fst (handle_compression_callback
        (fst (handle_compression_callback state_first_job 7 ''compress_low'' 1 1)) 7
           ''compress_high'' 2 2)) 7) = Some (sample_video 2000)"
proof -
  have h: "pending_video (users state_first_job 7) = Some (sample_video 2000)"
    by (simp add: state_first_job_def state_video_b_eq handle_compression_callback_def
        initial_state_def)
  have n: "\<forall>x. CancelCommand \<noteq> VideoMessage x" by simp
  show ?thesis
    using h n pending_video_never_cleared [OF h, of CancelCommand 7 "''compress_low''" 1 1
        "''compress_high''" 2 2]
    by simp
qed

section \<open>Cleanup on every exit path\<close>

lemma paths_differ: "make_input_path e u v \<noteq> make_output_path e u' v'"
  by (simp add: make_input_path_def make_output_path_def path_join_def)

lemma edit_message_text_inv:
  "paths_inv ip op fs0 p \<Longrightarrow> paths_inv ip op fs0 (snd (edit_message_text e k p))"
  by (simp add: paths_inv_def edit_message_text_def await_def emit_def Let_def)

lemma remove_if_exists_inv:
  "paths_inv ip op fs0 p \<Longrightarrow> q = ip \<or> q = op \<Longrightarrow> paths_inv ip op fs0 (remove_if_exists q p)"
  by (auto simp: paths_inv_def remove_if_exists_def emit_def)

lemma stage_upload_inv:
  "paths_inv ip op fs0 p \<Longrightarrow> paths_inv ip op fs0 (snd (stage_upload e vi op p))"
  by (auto simp: stage_upload_def paths_inv_def edit_message_text_def await_def emit_def Let_def
      split: option.splits sum.splits prod.splits exit.splits if_splits)

lemma stage_after_encode_inv:
  "paths_inv ip op fs0 p \<Longrightarrow> paths_inv ip op fs0 (snd (stage_after_encode e uid vi ip op p))"
  using stage_upload_inv [of ip op fs0 p e vi]
  by (auto simp: stage_after_encode_def paths_inv_def edit_message_text_def await_def emit_def
      remove_if_exists_def Let_def
      split: option.splits sum.splits prod.splits exit.splits if_splits)

lemma write_file_other: "q \<noteq> path \<Longrightarrow> write_file r path fs q = fs q"
  by (simp add: write_file_def split: io_result.splits)

lemma stage_encode_inv:
  assumes "paths_inv ip op fs0 p"
  shows "paths_inv ip op fs0 (snd (stage_encode e uid vi q ip op p))"
proof (cases "COMPRESSION_PRESETS q")
  case None
  then show ?thesis using assms by (simp add: stage_encode_def)
next
  case (Some pr)
  let ?p1 = "snd (edit_message_text e 4 p)"
  let ?p2 = "await e 5 (emit (Encode ip op pr) ?p1
                \<lparr>p_files := write_file (encode_res e) op (p_files ?p1)\<rparr>)"
  have i1: "paths_inv ip op fs0 ?p1" using assms by (rule edit_message_text_inv)
  have i2: "paths_inv ip op fs0 ?p2"
    using i1 by (simp add: paths_inv_def await_def emit_def write_file_other)
  have "paths_inv ip op fs0 (snd (stage_after_encode e uid vi ip op ?p2))"
    using i2 by (rule stage_after_encode_inv)
  then show ?thesis
    using Some i1 i2
    by (auto simp: stage_encode_def edit_message_text_def Let_def split: prod.splits exit.splits)
qed

lemma stage_after_download_inv:
  assumes "paths_inv ip op fs0 p"
  shows "paths_inv ip op fs0 (snd (stage_after_download e uid vi q ip op p))"
proof -
  have a: "paths_inv ip op fs0 (snd (stage_encode e uid vi q ip op p))"
    using assms by (rule stage_encode_inv)
  have b: "paths_inv ip op fs0 (emit (Remove ip) (p\<lparr>p_files := (p_files p)(ip := None)\<rparr>))"
    using assms by (simp add: paths_inv_def emit_def)
  have c: "paths_inv ip op fs0 (snd (edit_message_text e 3
              (emit (Remove ip) (p\<lparr>p_files := (p_files p)(ip := None)\<rparr>))))"
    using b by (rule edit_message_text_inv)
  have d: "paths_inv ip op fs0 (p'\<lparr>p_tasks := m\<rparr>)" if "paths_inv ip op fs0 p'" for p' m
    using that by (simp add: paths_inv_def)
  show ?thesis
    using a c d assms
    by (auto simp: stage_after_download_def split: option.splits prod.splits exit.splits)
qed

lemma stage_download_post:
  assumes "active_tasks s uid = Some t" "input_path p = None" "output_path p = None"
    "p_files p = files s"
  shows "body_post e uid s (snd (stage_download e uid (task_video_info t) q p))"
proof (cases "get_file_ok e")
  case False
  then show ?thesis using assms
    by (simp add: stage_download_def body_post_def await_def emit_def Let_def)
next
  case True
  let ?vi = "task_video_info t"
  let ?ip = "make_input_path e uid ?vi"
  let ?op = "make_output_path e uid ?vi"
  let ?p1 = "await e 1 (emit (GetFile (file_id ?vi)) p)"
  let ?p2 = "?p1\<lparr>input_path := Some ?ip, output_path := Some ?op\<rparr>"
  let ?p3 = "await e 2 (emit (Download ?ip) ?p2
                \<lparr>p_files := write_file (download_res e) ?ip (p_files ?p2)\<rparr>)"
  have i3: "paths_inv ?ip ?op (files s) ?p3"
    using assms by (simp add: paths_inv_def await_def emit_def write_file_other)
  have "paths_inv ?ip ?op (files s) (snd (stage_after_download e uid ?vi q ?ip ?op ?p3))"
    using i3 by (rule stage_after_download_inv)
  then show ?thesis
    using True i3 assms(1)
    by (auto simp: stage_download_def body_post_def Let_def)
qed

lemma try_body_post: "body_post e uid s (snd (try_body e uid (start_pst s)))"
proof (cases "active_tasks s uid")
  case None
  then show ?thesis by (simp add: try_body_def start_pst_def body_post_def)
next
  case (Some t)
  let ?p0 = "(start_pst s)\<lparr>local_status_message_id := Some (status_message_id t)\<rparr>"
  let ?p1 = "snd (edit_message_text e 0 ?p0)"
  have f: "input_path ?p1 = None" "output_path ?p1 = None" "p_files ?p1 = files s"
    by (simp_all add: edit_message_text_def await_def emit_def start_pst_def Let_def)
  have "body_post e uid s (snd (stage_download e uid (task_video_info t) (quality t) ?p1))"
    using Some f by (rule stage_download_post)
  then show ?thesis
    using Some f
    by (auto simp: try_body_def start_pst_def Let_def body_post_def edit_message_text_def
        split: prod.splits exit.splits)
qed

lemma except_handler_fields:
  "input_path (except_handler e x p) = input_path p"
  "output_path (except_handler e x p) = output_path p"
  "p_files (except_handler e x p) = p_files p"
  by (simp_all add: except_handler_def edit_message_text_def await_def emit_def Let_def
      split: exit.splits option.splits)

text \<open>
  C2. Whatever the outside world does during a run (any result of any external call,
  any change of the registry while the run is suspended), and however the body is left
  (completed, canceled, failed, the encoder raising included), afterwards the registry
  holds no entry for the user, neither of the two paths of the job holds a file once the
  paths were allocated, and every other file is as it was before the run.
\<close>

theorem terminal_cleanup:
  "p_tasks (snd (process_compression e uid s)) uid = None \<and>
   (\<forall>q \<in> job_paths e uid s. input_path (snd (process_compression e uid s)) \<noteq> None \<longrightarrow>
        p_files (snd (process_compression e uid s)) q = None) \<and>
   (\<forall>q. q \<notin> job_paths e uid s \<or> input_path (snd (process_compression e uid s)) = None \<longrightarrow>
        p_files (snd (process_compression e uid s)) q = files s q)"
proof -
  obtain x p where b: "try_body e uid (start_pst s) = (x, p)" by (cases "try_body e uid (start_pst s)")
  have post: "body_post e uid s p" using try_body_post [of e uid s] b by simp
  have r: "snd (process_compression e uid s) = finally_block uid (except_handler e x p)"
    by (simp add: process_compression_def b)
  show ?thesis
    using post
    unfolding r
    by (auto simp: body_post_def paths_inv_def job_paths_def finally_block_def
        except_handler_fields remove_if_exists_def emit_def Let_def)
qed

lemmas pipeline_defs =
  process_compression_def try_body_def stage_download_def stage_after_download_def
  stage_encode_def stage_after_encode_def stage_upload_def except_handler_def finally_block_def
  edit_message_text_def await_def emit_def remove_if_exists_def write_file_def io_ok_def
  status_of_def start_pst_def Let_def

lemma presets_low: "COMPRESSION_PRESETS ''low'' = Some \<lparr>crf = 28, preset_name = ''veryfast'',
                  description = ''Small file size, lower quality''\<rparr>"
  by (simp add: COMPRESSION_PRESETS_def)

lemma run_encode_fails:
  "fst (process_compression env_encode_fails 7 state_first_job) = Failed"
  "input_path (snd (process_compression env_encode_fails 7 state_first_job)) =
     Some (make_input_path env_encode_fails 7 (sample_video 2000))"
  using state_first_job_tasks paths_differ [of env_encode_fails 7 "sample_video 2000" 7 "sample_video 2000"]
  by (simp_all add: pipeline_defs presets_low env_encode_fails_def env_ok_def)

theorem terminal_cleanup_witness:
  "make_output_path env_encode_fails 7 (sample_video 2000) \<in> job_paths env_encode_fails 7 state_first_job \<and>
   input_path (snd (process_compression env_encode_fails 7 state_first_job)) \<noteq> None \<and>
   fst (process_compression env_encode_fails 7 state_first_job) = Failed \<and>
   p_files (snd (process_compression env_encode_fails 7 state_first_job))
     (make_output_path env_encode_fails 7 (sample_video 2000)) = None \<and>
   p_files (snd (process_compression env_encode_fails 7 state_first_job))
     (make_input_path env_encode_fails 7 (sample_video 2000)) = None \<and>
   p_tasks (snd (process_compression env_encode_fails 7 state_first_job)) 7 = None"
proof -
  have j: "job_paths env_encode_fails 7 state_first_job =
           {make_input_path env_encode_fails 7 (sample_video 2000),
            make_output_path env_encode_fails 7 (sample_video 2000)}"
    by (simp add: job_paths_def state_first_job_tasks)
  show ?thesis
    using terminal_cleanup [of env_encode_fails 7 state_first_job] run_encode_fails j
    by simp
qed

section \<open>Cancellation\<close>

lemma cancel_command_tasks:
  "active_tasks (fst (cancel_command s uid)) = request_cancel uid (active_tasks s)"
  by (simp add: cancel_command_def request_cancel_def split: option.splits)

lemma cancel_command_frame:
  "files (fst (cancel_command s uid)) = files s" "users (fst (cancel_command s uid)) = users s"
  by (simp_all add: cancel_command_def split: option.splits)

text \<open>
  The run whose cancellation flag is found set at the check after the download: the
  whole result, in terms of the environment.
\<close>

lemma run_canceled_after_download:
  assumes "active_tasks s uid = Some t"
    and "edit_ok e 0" and "get_file_ok e" and "download_res e = IoOk n"
    and "tasks_after e [0, 1, 2] (active_tasks s) uid = Some t'" and "canceled t'"
  shows "process_compression e uid s =
    (let ip = make_input_path e uid (task_video_info t);
         delivered = (edit_ok e 3 \<and> tasks_after e [0, 1, 2, 3] (active_tasks s) uid \<noteq> None)
     in (if delivered then Canceled else Failed,
         \<lparr>p_tasks = (tasks_after e (if delivered then [0, 1, 2, 3] else [0, 1, 2, 3, 10])
                       (active_tasks s))(uid := None),
          p_files = (files s)(ip := None, make_output_path e uid (task_video_info t) := None),
          trace = [EditMessage 0, GetFile (file_id (task_video_info t)), Download ip, Remove ip,
                   EditMessage 3] @ (if delivered then [] else [LogError, EditMessage 10]) @
                  (if files s (make_output_path e uid (task_video_info t)) = None then []
                   else [Remove (make_output_path e uid (task_video_info t))]),
          input_path = Some ip,
          output_path = Some (make_output_path e uid (task_video_info t)),
          local_status_message_id = Some (status_message_id t)\<rparr>))"
  using assms paths_differ [of e uid "task_video_info t" uid "task_video_info t"]
  by (auto simp: pipeline_defs tasks_after_def fun_upd_twist)

lemma state_canceled_early_tasks:
  "active_tasks state_canceled_early 7 =
     Some \<lparr>task_video_info = sample_video 2000, quality = ''low'', status_message_id = 100,
           start_time = 0, canceled = True\<rparr>"
  by (simp add: state_canceled_early_def cancel_command_tasks request_cancel_def
      state_first_job_tasks)

lemma env_ok_fields:
  "edit_ok env_ok k" "get_file_ok env_ok" "download_res env_ok = IoOk 2000"
  "encode_res env_ok = IoOk 900" "send_video_ok env_ok" "interleave env_ok k m = m"
  by (simp_all add: env_ok_def)

lemma tasks_after_env_ok: "tasks_after env_ok ks m = m"
  by (induction ks arbitrary: m) (simp_all add: tasks_after_def env_ok_fields)

text \<open>
  C3, as the claim states it, fails: with the flag already set when the pipeline starts
  and every external call succeeding, the download is announced and performed, and the
  downloaded file is removed only afterwards.
\<close>

theorem download_runs_although_canceled:
  "map_option canceled (active_tasks state_canceled_early 7) = Some True \<and>
   trace (snd (process_compression env_ok 7 state_canceled_early)) =
     [EditMessage 0, GetFile ''f1'', Download (make_input_path env_ok 7 (sample_video 2000)),
      Remove (make_input_path env_ok 7 (sample_video 2000)), EditMessage 3]"
proof -
  let ?t = "\<lparr>task_video_info = sample_video 2000, quality = ''low'', status_message_id = 100,
           start_time = 0, canceled = True\<rparr>"
  have a: "active_tasks state_canceled_early 7 = Some ?t" by (rule state_canceled_early_tasks)
  have b: "tasks_after env_ok [0, 1, 2] (active_tasks state_canceled_early) 7 = Some ?t"
    by (simp add: tasks_after_env_ok a)
  have c: "canceled ?t" by simp
  have f: "files state_canceled_early = Map.empty"
    by (simp add: state_canceled_early_def cancel_command_frame state_first_job_def
        handle_compression_callback_def state_video_b_eq initial_state_def)
  show ?thesis
    using a f run_canceled_after_download [OF a env_ok_fields(1) env_ok_fields(2) env_ok_fields(3) b c]
    by (simp add: tasks_after_env_ok env_ok_fields sample_video_def Let_def)
qed

text \<open>
  C3, amended. The flag is first read after the download has returned. When it is found
  set there, the download has been performed, the input file is removed again, no encode
  call is made, the registry entry is removed, and the job ends Canceled when the cancel
  notice is delivered and the entry is still registered (Failed otherwise).
\<close>

theorem cancel_checked_after_download:
  assumes "active_tasks s uid = Some t"
    and "edit_ok e 0" and "get_file_ok e" and "download_res e = IoOk n"
    and "tasks_after e [0, 1, 2] (active_tasks s) uid = Some t'" and "canceled t'"
  shows "Download (make_input_path e uid (task_video_info t))
           \<in> set (trace (snd (process_compression e uid s))) \<and>
         (\<forall>a b c. Encode a b c \<notin> set (trace (snd (process_compression e uid s)))) \<and>
         p_files (snd (process_compression e uid s)) (make_input_path e uid (task_video_info t)) = None \<and>
         p_tasks (snd (process_compression e uid s)) uid = None \<and>
         fst (process_compression e uid s) =
           (if edit_ok e 3 \<and> tasks_after e [0, 1, 2, 3] (active_tasks s) uid \<noteq> None
            then Canceled else Failed)"
  unfolding run_canceled_after_download [OF assms]
  by (simp add: Let_def)

theorem cancel_checked_after_download_witness:
  "active_tasks state_canceled_early 7 =
     Some \<lparr>task_video_info = sample_video 2000, quality = ''low'', status_message_id = 100,
           start_time = 0, canceled = True\<rparr> \<and>
   Download (make_input_path env_ok 7 (sample_video 2000))
     \<in> set (trace (snd (process_compression env_ok 7 state_canceled_early))) \<and>
   fst (process_compression env_ok 7 state_canceled_early) = Canceled"
proof -
  let ?t = "\<lparr>task_video_info = sample_video 2000, quality = ''low'', status_message_id = 100,
           start_time = 0, canceled = True\<rparr>"
  have a: "active_tasks state_canceled_early 7 = Some ?t" by (rule state_canceled_early_tasks)
  have b: "tasks_after env_ok [0, 1, 2] (active_tasks state_canceled_early) 7 = Some ?t"
    by (simp add: tasks_after_env_ok a)
  have c: "canceled ?t" by simp
  show ?thesis
    using a cancel_checked_after_download [OF a env_ok_fields(1) env_ok_fields(2) env_ok_fields(3) b c]
    by (simp add: tasks_after_env_ok env_ok_fields)
qed

text \<open>
  The run that reaches the encoder and finds the flag set at the check after it.
\<close>

lemma run_canceled_after_encode:
  assumes "active_tasks s uid = Some t" and "COMPRESSION_PRESETS (quality t) = Some pr"
    and "edit_ok e 0" and "get_file_ok e" and "download_res e = IoOk n"
    and "tasks_after e [0, 1, 2] (active_tasks s) uid = Some t1" and "\<not> canceled t1"
    and "edit_ok e 4" and "encode_res e = IoOk m"
    and "tasks_after e [0, 1, 2, 4, 5] (active_tasks s) uid = Some t2" and "canceled t2"
  shows "process_compression e uid s =
    (let ip = make_input_path e uid (task_video_info t);
         op = make_output_path e uid (task_video_info t);
         delivered = (edit_ok e 6 \<and> tasks_after e [0, 1, 2, 4, 5, 6] (active_tasks s) uid \<noteq> None)
     in (if delivered then Canceled else Failed,
         \<lparr>p_tasks = (tasks_after e (if delivered then [0, 1, 2, 4, 5, 6] else [0, 1, 2, 4, 5, 6, 10])
                       (active_tasks s))(uid := None),
          p_files = (files s)(ip := None, op := None),
          trace = [EditMessage 0, GetFile (file_id (task_video_info t)), Download ip,
                   EditMessage 4, Encode ip op pr, Remove ip, Remove op, EditMessage 6] @
                  (if delivered then [] else [LogError, EditMessage 10]),
          input_path = Some ip, output_path = Some op,
          local_status_message_id = Some (status_message_id t)\<rparr>))"
  using assms paths_differ [of e uid "task_video_info t" uid "task_video_info t"]
  by (auto simp: pipeline_defs tasks_after_def fun_upd_twist)

lemma env_cancel_notice_fails_fields:
  "edit_ok env_cancel_notice_fails k = (k \<noteq> 6)" "get_file_ok env_cancel_notice_fails"
  "download_res env_cancel_notice_fails = IoOk 2000"
  "encode_res env_cancel_notice_fails = IoOk 900"
  "interleave env_cancel_notice_fails k m = (if k = 5 then request_cancel 7 m else m)"
  by (simp_all add: env_cancel_notice_fails_def env_cancel_during_encode_def env_ok_def)

text \<open>
  C6, as the claim states it, fails: the flag is clear while the job starts encoding, a
  cancel command arrives while the encoder runs, the encoder returns and both files are
  removed, but the cancel notice cannot be delivered: the exception reaches the handler
  and the job ends Failed, not Canceled.
\<close>

theorem cancel_during_encode_ends_failed:
  "map_option canceled
     (tasks_after env_cancel_notice_fails [0, 1, 2, 4] (active_tasks state_first_job) 7) = Some False \<and>
   tasks_after env_cancel_notice_fails [0, 1, 2, 4, 5] (active_tasks state_first_job) =
     request_cancel 7 (tasks_after env_cancel_notice_fails [0, 1, 2, 4] (active_tasks state_first_job)) \<and>
   map_option canceled
     (tasks_after env_cancel_notice_fails [0, 1, 2, 4, 5] (active_tasks state_first_job) 7) = Some True \<and>
   fst (process_compression env_cancel_notice_fails 7 state_first_job) = Failed \<and>
   trace (snd (process_compression env_cancel_notice_fails 7 state_first_job)) =
     [EditMessage 0, GetFile ''f1'', Download (make_input_path env_cancel_notice_fails 7 (sample_video 2000)),
      EditMessage 4,
      Encode (make_input_path env_cancel_notice_fails 7 (sample_video 2000))
             (make_output_path env_cancel_notice_fails 7 (sample_video 2000))
             \<lparr>crf = 28, preset_name = ''veryfast'',
               description = ''Small file size, lower quality''\<rparr>,
      Remove (make_input_path env_cancel_notice_fails 7 (sample_video 2000)),
      Remove (make_output_path env_cancel_notice_fails 7 (sample_video 2000)),
      EditMessage 6, LogError, EditMessage 10]"
proof -
  let ?e = env_cancel_notice_fails
  let ?t = "\<lparr>task_video_info = sample_video 2000, quality = ''low'', status_message_id = 100,
           start_time = 0, canceled = False\<rparr>"
  have a: "active_tasks state_first_job 7 = Some ?t" by (rule state_first_job_tasks)
  have b: "tasks_after ?e [0, 1, 2] (active_tasks state_first_job) 7 = Some ?t"
    by (simp add: tasks_after_def env_cancel_notice_fails_fields a)
  have b4: "tasks_after ?e [0, 1, 2, 4] (active_tasks state_first_job) 7 = Some ?t"
    by (simp add: tasks_after_def env_cancel_notice_fails_fields a)
  have c: "\<not> canceled ?t" by simp
  have d: "tasks_after ?e [0, 1, 2, 4, 5] (active_tasks state_first_job) 7 =
           Some (?t\<lparr>canceled := True\<rparr>)"
    by (simp add: tasks_after_def env_cancel_notice_fails_fields a request_cancel_def)
  have g: "canceled (?t\<lparr>canceled := True\<rparr>)" by simp
  have r: "tasks_after ?e [0, 1, 2, 4, 5] (active_tasks state_first_job) =
     request_cancel 7 (tasks_after ?e [0, 1, 2, 4] (active_tasks state_first_job))"
    by (simp add: tasks_after_def env_cancel_notice_fails_fields)
  have q: "COMPRESSION_PRESETS (quality ?t) = Some \<lparr>crf = 28, preset_name = ''veryfast'',
               description = ''Small file size, lower quality''\<rparr>"
    by (simp add: presets_low)
  have e0: "edit_ok ?e 0" and e4: "edit_ok ?e 4" and e6: "\<not> edit_ok ?e 6"
    by (simp_all add: env_cancel_notice_fails_fields)
  show ?thesis
    using b4 d r
      run_canceled_after_encode [OF a q e0 env_cancel_notice_fails_fields(2)
        env_cancel_notice_fails_fields(3) b c e4 env_cancel_notice_fails_fields(4) d g]
    by (simp add: e6 Let_def sample_video_def)
qed

text \<open>
  C6, amended. The flag is read only once the encoder has returned, so a cancellation
  that arrives while the job is encoding does not stop the encoder: the encode call is
  made and returns. When the flag is found set at that read (clear at the check after the
  download, set at the check after the encoder), the output file is deleted and not sent,
  the upload stage is never announced, and the input file and the registry entry are gone.
  The job ends Canceled when the cancel notice is delivered and the entry is still
  registered, and Failed otherwise.
\<close>

theorem cancel_during_encode_best_effort:
  assumes "active_tasks s uid = Some t" and "COMPRESSION_PRESETS (quality t) = Some pr"
    and "edit_ok e 0" and "get_file_ok e" and "download_res e = IoOk n"
    and "tasks_after e [0, 1, 2] (active_tasks s) uid = Some t1" and "\<not> canceled t1"
    and "edit_ok e 4" and "encode_res e = IoOk m"
    and "tasks_after e [0, 1, 2, 4, 5] (active_tasks s) uid = Some t2" and "canceled t2"
  shows "Encode (make_input_path e uid (task_video_info t))
                (make_output_path e uid (task_video_info t)) pr
           \<in> set (trace (snd (process_compression e uid s))) \<and>
         Remove (make_output_path e uid (task_video_info t))
           \<in> set (trace (snd (process_compression e uid s))) \<and>
         (\<forall>x y. SendVideo x y \<notin> set (trace (snd (process_compression e uid s)))) \<and>
         EditMessage 7 \<notin> set (trace (snd (process_compression e uid s))) \<and>
         p_files (snd (process_compression e uid s)) (make_output_path e uid (task_video_info t)) = None \<and>
         p_files (snd (process_compression e uid s)) (make_input_path e uid (task_video_info t)) = None \<and>
         p_tasks (snd (process_compression e uid s)) uid = None \<and>
         fst (process_compression e uid s) =
           (if edit_ok e 6 \<and> tasks_after e [0, 1, 2, 4, 5, 6] (active_tasks s) uid \<noteq> None
            then Canceled else Failed)"
  unfolding run_canceled_after_encode [OF assms]
  by (simp add: Let_def)

lemma env_cancel_fields:
  "edit_ok env_cancel_during_encode k" "get_file_ok env_cancel_during_encode"
  "download_res env_cancel_during_encode = IoOk 2000"
  "encode_res env_cancel_during_encode = IoOk 900"
  "interleave env_cancel_during_encode k m = (if k = 5 then request_cancel 7 m else m)"
  by (simp_all add: env_cancel_during_encode_def env_ok_def)

theorem cancel_during_encode_best_effort_witness:
  "map_option canceled (active_tasks state_first_job 7) = Some False \<and>
   map_option canceled
     (tasks_after env_cancel_during_encode [0, 1, 2, 4, 5] (active_tasks state_first_job) 7) = Some True \<and>
   fst (process_compression env_cancel_during_encode 7 state_first_job) = Canceled \<and>
   (\<forall>x y. SendVideo x y \<notin> set (trace (snd (process_compression env_cancel_during_encode 7 state_first_job)))) \<and>
   p_files (snd (process_compression env_cancel_during_encode 7 state_first_job))
     (make_output_path env_cancel_during_encode 7 (sample_video 2000)) = None"
proof -
  let ?t = "\<lparr>task_video_info = sample_video 2000, quality = ''low'', status_message_id = 100,
           start_time = 0, canceled = False\<rparr>"
  have a: "active_tasks state_first_job 7 = Some ?t" by (rule state_first_job_tasks)
  have b: "tasks_after env_cancel_during_encode [0, 1, 2] (active_tasks state_first_job) 7 = Some ?t"
    by (simp add: tasks_after_def env_cancel_fields a)
  have c: "\<not> canceled ?t" by simp
  have d: "tasks_after env_cancel_during_encode [0, 1, 2, 4, 5] (active_tasks state_first_job) 7 =
           Some (?t\<lparr>canceled := True\<rparr>)"
    by (simp add: tasks_after_def env_cancel_fields a request_cancel_def)
  have g: "canceled (?t\<lparr>canceled := True\<rparr>)" by simp
  have h: "tasks_after env_cancel_during_encode [0, 1, 2, 4, 5, 6] (active_tasks state_first_job) 7 \<noteq> None"
    by (simp add: tasks_after_def env_cancel_fields a request_cancel_def)
  show ?thesis
    using a d h cancel_during_encode_best_effort [OF a _ env_cancel_fields(1) env_cancel_fields(2)
        env_cancel_fields(3) b c env_cancel_fields(1) env_cancel_fields(4) d g, of _]
      presets_low
    by (simp add: env_cancel_fields)
qed

section \<open>Failing notices\<close>













lemma nfr_edit: "notice_failure_raises e p (edit_message_text e k p)"
  by (auto simp: notice_failure_raises_def edit_message_text_def await_def emit_def Let_def)
















section \<open>Admission errors and the preset key\<close>













section \<open>Size reduction\<close>

text \<open>
  C8. A job with a positive original size whose run reaches the metrics (the downloads and
  the encoder succeed and the flag is clear at both checks) computes the size reduction
  as the float value of \<open>100 - (output_size / file_size * 100)\<close> without a division
  error or any other exception, for every output size a file system can report: the upload
  is announced, the value is what the upload carries, and from there the job fails only
  if a message cannot be delivered. When the output is larger than the input the value
  is negative; this holds for every original size up to \<open>2 ^ 52\<close> bytes, the size gate
  admitting at most \<open>2 ^ 31\<close>.
\<close>

theorem size_reduction_reported:
  assumes "active_tasks s uid = Some t" and "COMPRESSION_PRESETS (quality t) = Some pr"
    and "edit_ok e 0" and "get_file_ok e" and "download_res e = IoOk n"
    and "tasks_after e [0, 1, 2] (active_tasks s) uid = Some t1" and "\<not> canceled t1"
    and "edit_ok e 4" and "encode_res e = IoOk m"
    and "tasks_after e [0, 1, 2, 4, 5] (active_tasks s) uid = Some t2" and "\<not> canceled t2"
    and "0 < file_size (task_video_info t)" and "0 \<le> m" and "m < 2 ^ 63"
  shows "size_reduction m (file_size (task_video_info t)) =
           Inr (Finite (reduction_value m (file_size (task_video_info t)))) \<and>
         EditMessage 7 \<in> set (trace (snd (process_compression e uid s))) \<and>
         (edit_ok e 7 \<longrightarrow>
            SendVideo (make_output_path e uid (task_video_info t))
                      (Finite (reduction_value m (file_size (task_video_info t))))
              \<in> set (trace (snd (process_compression e uid s)))) \<and>
         fst (process_compression e uid s) =
           (if edit_ok e 7 \<and> send_video_ok e \<and> edit_ok e 9 then Completed else Failed) \<and>
         (file_size (task_video_info t) \<le> 2 ^ 52 \<and> file_size (task_video_info t) < m \<longrightarrow>
            reduction_value m (file_size (task_video_info t)) < 0)"
proof -
  let ?fs = "file_size (task_video_info t)"
  have sr: "size_reduction m ?fs = Inr (Finite (reduction_value m ?fs))"
    using assms(12,13,14) by (rule size_reduction_value)
  have run: "EditMessage 7 \<in> set (trace (snd (process_compression e uid s))) \<and>
         (edit_ok e 7 \<longrightarrow>
            SendVideo (make_output_path e uid (task_video_info t)) (Finite (reduction_value m ?fs))
              \<in> set (trace (snd (process_compression e uid s)))) \<and>
         fst (process_compression e uid s) =
           (if edit_ok e 7 \<and> send_video_ok e \<and> edit_ok e 9 then Completed else Failed)"
    using assms(1-11) sr paths_differ [of e uid "task_video_info t" uid "task_video_info t"]
    by (auto simp: pipeline_defs tasks_after_def)
  have neg: "reduction_value m ?fs < 0" if "?fs \<le> 2 ^ 52" and "?fs < m"
    using assms(12) that by (rule reduction_value_negative)
  show ?thesis using sr run neg by blast
qed

lemma reduction_value_sample: "reduction_value 3000 2000 = - 50"
  by code_simp

lemma env_output_larger_fields:
  "edit_ok env_output_larger k" "get_file_ok env_output_larger"
  "download_res env_output_larger = IoOk 2000" "encode_res env_output_larger = IoOk 3000"
  "send_video_ok env_output_larger" "interleave env_output_larger k m = m"
  by (simp_all add: env_output_larger_def env_ok_def)

lemma tasks_after_env_output_larger: "tasks_after env_output_larger ks m = m"
  by (induction ks arbitrary: m) (simp_all add: tasks_after_def env_output_larger_fields)

theorem size_reduction_reported_witness:
  "active_tasks state_first_job 7 =
     Some \<lparr>task_video_info = sample_video 2000, quality = ''low'', status_message_id = 100,
           start_time = 0, canceled = False\<rparr> \<and>
   encode_res env_output_larger = IoOk 3000 \<and>
   size_reduction 3000 2000 = Inr (Finite (- 50)) \<and>
   EditMessage 7 \<in> set (trace (snd (process_compression env_output_larger 7 state_first_job))) \<and>
   SendVideo (make_output_path env_output_larger 7 (sample_video 2000)) (Finite (- 50))
     \<in> set (trace (snd (process_compression env_output_larger 7 state_first_job))) \<and>
   fst (process_compression env_output_larger 7 state_first_job) = Completed"
proof -
  let ?t = "\<lparr>task_video_info = sample_video 2000, quality = ''low'', status_message_id = 100,
           start_time = 0, canceled = False\<rparr>"
  have a: "active_tasks state_first_job 7 = Some ?t" by (rule state_first_job_tasks)
  have b: "tasks_after env_output_larger [0, 1, 2] (active_tasks state_first_job) 7 = Some ?t"
    by (simp add: tasks_after_env_output_larger a)
  have d: "tasks_after env_output_larger [0, 1, 2, 4, 5] (active_tasks state_first_job) 7 = Some ?t"
    by (simp add: tasks_after_env_output_larger a)
  have c: "\<not> canceled ?t" by simp
  have q: "COMPRESSION_PRESETS (quality ?t) = Some \<lparr>crf = 28, preset_name = ''veryfast'',
               description = ''Small file size, lower quality''\<rparr>"
    by (simp add: presets_low)
  have f: "0 < file_size (task_video_info ?t)" by (simp add: sample_video_def)
  have m: "(0::int) \<le> 3000" "(3000::int) < 2 ^ 63" by simp_all
  show ?thesis
    using a size_reduction_reported [OF a q env_output_larger_fields(1) env_output_larger_fields(2)
        env_output_larger_fields(3) b c env_output_larger_fields(1) env_output_larger_fields(4)
        d c f m]
    by (simp add: env_output_larger_fields reduction_value_sample sample_video_def)
qed

end
